theory Spec2Isabelle
  imports Complex_Main
begin

section \<open>JavaScript values used by the date tasks\<close>

text \<open>
  The module \<^verbatim>\<open>src/04-date-tasks.js\<close> works on JavaScript numbers, strings and
  \<^verbatim>\<open>Date\<close> objects. A number is modelled by an exact real number, with \<open>None\<close> for
  \<^verbatim>\<open>NaN\<close>; the rounding of IEEE doubles is not part of the model. An exception is
  a value of \<open>error\<close> on the left of a sum.
\<close>

datatype error = TypeError | RangeError

type_synonym number = "real option"

definition NaN :: "'a option" where
  "NaN = None"

text \<open>\<^verbatim>\<open>Math.trunc\<close>: rounding towards zero.\<close>

definition trunc :: "real \<Rightarrow> int" where
  "trunc x = (if 0 \<le> x then \<lfloor>x\<rfloor> else \<lceil>x\<rceil>)"

text \<open>The operator \<^verbatim>\<open>%\<close> on finite numbers: the remainder has the sign of the dividend.\<close>

definition jsRem :: "real \<Rightarrow> real \<Rightarrow> number" where
  "jsRem n d = (if d = 0 then NaN else Some (n - d * of_int (trunc (n / d))))"

subsection \<open>Strings\<close>

definition digitChar :: "nat \<Rightarrow> char" where
  "digitChar d = ''0123456789'' ! d"

text \<open>The decimal digits of a natural number, most significant first.\<close>

fun decimal :: "nat \<Rightarrow> string" where
  "decimal n = (if n < 10 then [digitChar n] else decimal (n div 10) @ [digitChar (n mod 10)])"

declare decimal.simps [simp del]

text \<open>\<^verbatim>\<open>String.prototype.padStart(len, '0')\<close>.\<close>

definition padStart :: "nat \<Rightarrow> string \<Rightarrow> string" where
  "padStart len s = replicate (len - length s) CHR ''0'' @ s"

text \<open>
  \<^verbatim>\<open>Number.prototype.toFixed(f)\<close> on a number of magnitude below \<open>10^21\<close> (every value
  the formatter renders is below 60 in magnitude): the integer \<open>n\<close> with \<open>n / 10^f\<close>
  nearest to the number, the larger one on a tie, written with \<open>f\<close> digits after the point.
  More than 100 digits raise a \<^verbatim>\<open>RangeError\<close>.
\<close>

definition fixedDigits :: "nat \<Rightarrow> nat \<Rightarrow> string" where
  "fixedDigits f n =
     (let m = decimal n;
          m' = (if f \<noteq> 0 \<and> length m \<le> f then replicate (f + 1 - length m) CHR ''0'' @ m else m)
      in if f = 0 then m'
         else take (length m' - f) m' @ ''.'' @ drop (length m' - f) m')"

definition toFixed :: "number \<Rightarrow> nat \<Rightarrow> error + string" where
  "toFixed v f =
     (if 100 < f then Inl RangeError
      else case v of
        None \<Rightarrow> Inr ''NaN''
      | Some x \<Rightarrow>
          (if x < 0 then Inr (''-'' @ fixedDigits f (nat \<lfloor>- x * 10 ^ f + 1 / 2\<rfloor>))
           else Inr (fixedDigits f (nat \<lfloor>x * 10 ^ f + 1 / 2\<rfloor>))))"

text \<open>
  \<^verbatim>\<open>String.prototype.replace(pattern, replacement)\<close> with a string pattern: only the
  first occurrence is replaced. The replacements of this module contain no \<^verbatim>\<open>$\<close>.
\<close>

fun replace :: "string \<Rightarrow> string \<Rightarrow> string \<Rightarrow> string" where
  "replace pat rep [] = (if pat = [] then rep else [])"
| "replace pat rep (c # cs) =
     (if take (length pat) (c # cs) = pat then rep @ drop (length pat) (c # cs)
      else c # replace pat rep cs)"

text \<open>\<^verbatim>\<open>String.prototype.indexOf\<close> of one character; \<open>None\<close> stands for \<open>-1\<close>.\<close>

fun indexOf :: "string \<Rightarrow> char \<Rightarrow> nat option" where
  "indexOf [] x = None"
| "indexOf (c # cs) x = (if c = x then Some 0 else map_option Suc (indexOf cs x))"

subsection \<open>Regular expressions of the formatter\<close>

text \<open>The class \<^verbatim>\<open>\w\<close> and the class \<^verbatim>\<open>[\w.]\<close>.\<close>

definition wordChar :: "char \<Rightarrow> bool" where
  "wordChar c \<longleftrightarrow>
     c \<in> set ''abcdefghijklmnopqrstuvwxyzABCDEFGHIJKLMNOPQRSTUVWXYZ0123456789_''"

definition codeChar :: "char \<Rightarrow> bool" where
  "codeChar c \<longleftrightarrow> wordChar c \<or> c = CHR ''.''"

text \<open>
  \<^verbatim>\<open>format.match(/([\w.]+)/g)\<close>: the maximal runs of class characters, left to right;
  \<^verbatim>\<open>null\<close> (here \<open>None\<close>) when there is none. The first argument of \<open>scan\<close> is the run
  being read.
\<close>

fun scan :: "string \<Rightarrow> string \<Rightarrow> string list" where
  "scan run [] = (if run = [] then [] else [run])"
| "scan run (c # cs) =
     (if codeChar c then scan (run @ [c]) cs
      else if run = [] then scan [] cs
      else run # scan [] cs)"

definition matchAll :: "string \<Rightarrow> string list option" where
  "matchAll format = (case scan [] format of [] \<Rightarrow> None | ms \<Rightarrow> Some ms)"

section \<open>Date objects\<close>

text \<open>
  A \<^verbatim>\<open>Date\<close> object holds one internal slot, its time value: the milliseconds since
  the epoch as an integer, or \<^verbatim>\<open>NaN\<close> for an invalid date. Methods that assign the slot
  return the updated object.
\<close>

record Date =
  DateValue :: "int option"

definition getTime :: "Date \<Rightarrow> number" where
  "getTime date = map_option of_int (DateValue date)"

text \<open>Subtraction of numbers: \<^verbatim>\<open>NaN\<close> if either operand is.\<close>

definition jsSub :: "number \<Rightarrow> number \<Rightarrow> number" where
  "jsSub a b = (case (a, b) of (Some x, Some y) \<Rightarrow> Some (x - y) | _ \<Rightarrow> NaN)"

text \<open>
  \<^verbatim>\<open>TimeClip\<close>: a time value outside \<open>\<plusminus>8.64 \<times> 10^15\<close> ms is \<^verbatim>\<open>NaN\<close>, and a time value is
  an integer. \<^verbatim>\<open>new Date(value)\<close> with a number clips it.
\<close>

definition TimeClip :: "number \<Rightarrow> int option" where
  "TimeClip time =
     (case time of
        None \<Rightarrow> NaN
      | Some x \<Rightarrow> if 8640000000000000 < \<bar>x\<bar> then NaN else Some (trunc x))"

definition newDate :: "number \<Rightarrow> Date" where
  "newDate v = \<lparr>DateValue = TimeClip v\<rparr>"

subsection \<open>Days, years, months\<close>

text \<open>The abstract operations of the language standard on time values.\<close>

definition msPerDay :: int where
  "msPerDay = 86400000"

definition msPerHour :: int where
  "msPerHour = 3600000"

definition msPerMinute :: int where
  "msPerMinute = 60000"

definition Day :: "int \<Rightarrow> int" where
  "Day t = t div msPerDay"

definition TimeWithinDay :: "int \<Rightarrow> int" where
  "TimeWithinDay t = t mod msPerDay"

definition DaysInYear :: "int \<Rightarrow> int" where
  "DaysInYear y =
     (if y mod 4 \<noteq> 0 then 365
      else if y mod 100 \<noteq> 0 then 366
      else if y mod 400 \<noteq> 0 then 365
      else 366)"

definition DayFromYear :: "int \<Rightarrow> int" where
  "DayFromYear y =
     365 * (y - 1970) + (y - 1969) div 4 - (y - 1901) div 100 + (y - 1601) div 400"

text \<open>
  \<open>YearFromTime t\<close> is the largest year whose first day is not after \<open>t\<close>. It is
  computed from the mean year length of 146097 / 400 days, which is off by at most one
  year (lemma \<open>YearFromTime_bounds\<close> below shows that the result is that year).
\<close>

definition YearFromTime :: "int \<Rightarrow> int" where
  "YearFromTime t =
     (let y = 1970 + (Day t * 400) div 146097
      in if DayFromYear (y + 1) \<le> Day t then y + 1
         else if DayFromYear y \<le> Day t then y
         else y - 1)"

definition InLeapYear :: "int \<Rightarrow> int" where
  "InLeapYear t = (if DaysInYear (YearFromTime t) = 366 then 1 else 0)"

definition DayWithinYear :: "int \<Rightarrow> int" where
  "DayWithinYear t = Day t - DayFromYear (YearFromTime t)"

text \<open>The day of the year on which month \<open>m\<close> (from 0) starts, \<open>l\<close> being 1 in a leap year.\<close>

definition monthStart :: "int \<Rightarrow> int \<Rightarrow> int" where
  "monthStart m l =
     (if m = 0 then 0 else if m = 1 then 31 else if m = 2 then 59 + l
      else if m = 3 then 90 + l else if m = 4 then 120 + l else if m = 5 then 151 + l
      else if m = 6 then 181 + l else if m = 7 then 212 + l else if m = 8 then 243 + l
      else if m = 9 then 273 + l else if m = 10 then 304 + l else 334 + l)"

definition MonthFromTime :: "int \<Rightarrow> int" where
  "MonthFromTime t =
     (let d = DayWithinYear t; l = InLeapYear t
      in if d < 31 then 0 else if d < 59 + l then 1 else if d < 90 + l then 2
         else if d < 120 + l then 3 else if d < 151 + l then 4 else if d < 181 + l then 5
         else if d < 212 + l then 6 else if d < 243 + l then 7 else if d < 273 + l then 8
         else if d < 304 + l then 9 else if d < 334 + l then 10 else 11)"

definition DateFromTime :: "int \<Rightarrow> int" where
  "DateFromTime t = DayWithinYear t - monthStart (MonthFromTime t) (InLeapYear t) + 1"



text \<open>
  \<open>MakeDay\<close>: the day number of the first day of the month, plus the date; months outside
  0..11 carry into the year, dates outside the month carry into the following days.
\<close>

definition MakeDay :: "int \<Rightarrow> int \<Rightarrow> int \<Rightarrow> int" where
  "MakeDay year month date' =
     (let ym = year + month div 12; mn = month mod 12
      in DayFromYear ym + monthStart mn (if DaysInYear ym = 366 then 1 else 0) + date' - 1)"

definition MakeDate :: "int \<Rightarrow> int \<Rightarrow> int" where
  "MakeDate day time = day * msPerDay + time"

subsection \<open>The local time zone\<close>

text \<open>
  The time zone of the machine is ambient state of the \<^verbatim>\<open>Date\<close> methods. It is the
  parameter \<open>tz\<close> of every method that reads it: the minutes that
  \<^verbatim>\<open>getTimezoneOffset()\<close> returns, the same at every instant (a zone with a fixed offset).
\<close>

definition LocalTZA :: "int \<Rightarrow> int" where
  "LocalTZA tz = - tz * msPerMinute"

definition LocalTime :: "int \<Rightarrow> int \<Rightarrow> int" where
  "LocalTime tz t = t + LocalTZA tz"

definition UTC :: "int \<Rightarrow> int \<Rightarrow> int" where
  "UTC tz t = t - LocalTZA tz"

subsection \<open>Methods\<close>




definition getDate :: "int \<Rightarrow> Date \<Rightarrow> number" where
  "getDate tz date =
     (case DateValue date of
        None \<Rightarrow> NaN
      | Some t \<Rightarrow> Some (of_int (DateFromTime (LocalTime tz t))))"

text \<open>
  \<^verbatim>\<open>setMonth(month)\<close> and \<^verbatim>\<open>setDate(date)\<close> with one integer argument: the new time
  value is assigned to the object.
\<close>

definition setMonth :: "int \<Rightarrow> int \<Rightarrow> Date \<Rightarrow> Date" where
  "setMonth tz month date =
     (case DateValue date of
        None \<Rightarrow> date
      | Some t' \<Rightarrow>
          (let t = LocalTime tz t';
               newDate = MakeDate (MakeDay (YearFromTime t) month (DateFromTime t)) (TimeWithinDay t)
           in date\<lparr>DateValue := TimeClip (Some (of_int (UTC tz newDate)))\<rparr>))"

definition setDate :: "int \<Rightarrow> int \<Rightarrow> Date \<Rightarrow> Date" where
  "setDate tz date' date =
     (case DateValue date of
        None \<Rightarrow> date
      | Some t' \<Rightarrow>
          (let t = LocalTime tz t';
               newDate = MakeDate (MakeDay (YearFromTime t) (MonthFromTime t) date') (TimeWithinDay t)
           in date\<lparr>DateValue := TimeClip (Some (of_int (UTC tz newDate)))\<rparr>))"

text \<open>
  \<^verbatim>\<open>new Date(Date.UTC(year, month, date, hours, minutes))\<close>, for a year that is not in
  0..99.
\<close>

definition DateUTC :: "int \<Rightarrow> int \<Rightarrow> int \<Rightarrow> int \<Rightarrow> int \<Rightarrow> Date" where
  "DateUTC year month date' hours minutes =
     newDate (Some (of_int (MakeDate (MakeDay year month date')
                                     (hours * msPerHour + minutes * msPerMinute))))"

section \<open>parseDataFromRfc2822 and parseDataFromIso8601\<close>

text \<open>
  Both functions return what \<^verbatim>\<open>Date.parse\<close> returns. The grammar of \<^verbatim>\<open>Date.parse\<close>
  beyond the ISO format is left to the host, so the host's parser is the parameter
  \<open>parse\<close>: it gives a time value, or \<^verbatim>\<open>NaN\<close> for a string it does not recognise.
  On a string, \<^verbatim>\<open>Date.parse\<close> raises nothing.
\<close>

definition parseDataFromRfc2822 :: "(string \<Rightarrow> number) \<Rightarrow> string \<Rightarrow> error + number" where
  "parseDataFromRfc2822 parse v = Inr (parse v)"

definition parseDataFromIso8601 :: "(string \<Rightarrow> number) \<Rightarrow> string \<Rightarrow> error + number" where
  "parseDataFromIso8601 parse v = Inr (parse v)"

text \<open>
  One host, for concrete inputs: it recognises the complete UTC form
  \<^verbatim>\<open>YYYY-MM-DDTHH:mm:ssZ\<close> of the ISO format and no other string. \<open>digitsValue\<close> reads
  a run of decimal digits.
\<close>

fun digitsValue :: "int \<Rightarrow> string \<Rightarrow> int option" where
  "digitsValue a [] = Some a"
| "digitsValue a (c # cs) =
     (case indexOf ''0123456789'' c of
        None \<Rightarrow> None
      | Some d \<Rightarrow> digitsValue (10 * a + int d) cs)"

definition isoHostParse :: "string \<Rightarrow> number" where
  "isoHostParse s =
     (if length s = 20 \<and> map (\<lambda>i. s ! i) [4, 7, 10, 13, 16, 19] = ''--T::Z'' then
        (case (digitsValue 0 (take 4 s), digitsValue 0 (take 2 (drop 5 s)),
               digitsValue 0 (take 2 (drop 8 s)), digitsValue 0 (take 2 (drop 11 s)),
               digitsValue 0 (take 2 (drop 14 s)), digitsValue 0 (take 2 (drop 17 s))) of
           (Some y, Some mo, Some d, Some h, Some mi, Some sec) \<Rightarrow>
             if 1 \<le> mo \<and> mo \<le> 12 \<and> 1 \<le> d \<and> d \<le> 31 \<and> h < 24 \<and> mi < 60 \<and> sec < 60
             then map_option of_int
                    (TimeClip (Some (of_int (MakeDate (MakeDay y (mo - 1) d)
                       (h * msPerHour + mi * msPerMinute + sec * 1000)))))
             else NaN
         | _ \<Rightarrow> NaN)
      else NaN)"

section \<open>isLeapYear\<close>

text \<open>
  The function assigns the month and then the date of the object it is given, and reads
  the date back (the argument of \<^verbatim>\<open>getDate(29)\<close> is ignored). The model returns the
  result together with the object as the call leaves it.
\<close>

definition isLeapYear :: "int \<Rightarrow> Date \<Rightarrow> bool \<times> Date" where
  "isLeapYear tz date =
     (let date1 = setMonth tz 1 date;
          date2 = setDate tz 29 date1
      in (getDate tz date2 = Some 29, date2))"

section \<open>timeSpanToString\<close>

datatype timeUnit = hour | minute | second

definition timeCodeDict :: "char \<Rightarrow> timeUnit option" where
  "timeCodeDict = [CHR ''H'' \<mapsto> hour, CHR ''m'' \<mapsto> minute, CHR ''s'' \<mapsto> second]"

fun timeCoefficient :: "timeUnit \<Rightarrow> real" where
  "timeCoefficient hour = 3600000"
| "timeCoefficient minute = 60000"
| "timeCoefficient second = 1000"

fun timeMax :: "timeUnit \<Rightarrow> real" where
  "timeMax hour = 24"
| "timeMax minute = 60"
| "timeMax second = 60"

text \<open>
  The object \<^verbatim>\<open>encodedTime\<close>. The field \<open>unitType\<close> is the source's \<^verbatim>\<open>type\<close>,
  \<open>codeLength\<close> its \<^verbatim>\<open>length\<close> and \<open>timeValue\<close> its \<^verbatim>\<open>value\<close>; \<open>None\<close> is
  \<^verbatim>\<open>undefined\<close> in \<open>unitType\<close> and \<open>floatPoint\<close>.
\<close>

record encodedTime =
  code :: string
  unitType :: "timeUnit option"
  codeLength :: nat
  floatPoint :: "nat option"
  timeValue :: number

text \<open>The truth value of \<^verbatim>\<open>floatPoint\<close>: \<^verbatim>\<open>undefined\<close> and \<open>0\<close> are false.\<close>

definition truthy :: "nat option \<Rightarrow> bool" where
  "truthy fp = (case fp of None \<Rightarrow> False | Some i \<Rightarrow> i \<noteq> 0)"

text \<open>
  \<^verbatim>\<open>code.match(/\w/)\<close> is the first word character of the code, and the dictionary
  lookup with it gives \<^verbatim>\<open>undefined\<close> when there is none or when it is no unit letter;
  arithmetic with \<^verbatim>\<open>undefined\<close> gives \<^verbatim>\<open>NaN\<close>.
\<close>

definition parseTimeCode :: "number \<Rightarrow> string \<Rightarrow> encodedTime" where
  "parseTimeCode time code' =
     (let type = (case find wordChar code' of None \<Rightarrow> None | Some c \<Rightarrow> timeCodeDict c);
          len = length code';
          fp = indexOf code' CHR ''.'';
          pow = (if truthy fp then 10 ^ len else 1);
          v = (case (time, type) of
                 (Some t, Some u) \<Rightarrow> jsRem (t / timeCoefficient u) (timeMax u)
               | _ \<Rightarrow> NaN);
          v' = map_option (\<lambda>x. of_int (trunc (x * pow)) / pow) v
      in \<lparr>code = code', unitType = type, codeLength = len, floatPoint = fp, timeValue = v'\<rparr>)"

definition toString :: "encodedTime \<Rightarrow> error + string" where
  "toString this =
     (case toFixed (timeValue this)
             (case floatPoint this of
                None \<Rightarrow> 0
              | Some i \<Rightarrow> if i \<noteq> 0 then codeLength this - i - 1 else 0) of
        Inl e \<Rightarrow> Inl e
      | Inr s \<Rightarrow> Inr (padStart (codeLength this) s))"

text \<open>The \<^verbatim>\<open>reduce\<close> over the parsed codes, starting from the format.\<close>

fun reduce :: "encodedTime list \<Rightarrow> string \<Rightarrow> error + string" where
  "reduce [] output = Inr output"
| "reduce (timeObj # rest) output =
     (case toString timeObj of
        Inl e \<Rightarrow> Inl e
      | Inr s \<Rightarrow> reduce rest (replace (code timeObj) s output))"

text \<open>\<^verbatim>\<open>matches.map\<close> on \<^verbatim>\<open>null\<close> raises a \<^verbatim>\<open>TypeError\<close>.\<close>

definition formatTime :: "string \<Rightarrow> number \<Rightarrow> error + string" where
  "formatTime format time =
     (case matchAll format of
        None \<Rightarrow> Inl TypeError
      | Some matches \<Rightarrow> reduce (map (parseTimeCode time) matches) format)"

definition timeSpanToString :: "Date \<Rightarrow> Date \<Rightarrow> error + string" where
  "timeSpanToString startDate endDate =
     formatTime ''HH:mm:ss.sss'' (jsSub (getTime endDate) (getTime startDate))"

section \<open>angleBetweenClockHands\<close>




section \<open>Reference notions of the specification\<close>

text \<open>
  The Gregorian rule in the words of the specification: divisible by 4, and not divisible
  by 100 or divisible by 400.
\<close>

definition gregorianRule :: "int \<Rightarrow> bool" where
  "gregorianRule y \<longleftrightarrow> y mod 4 = 0 \<and> (y mod 100 \<noteq> 0 \<or> y mod 400 = 0)"


text \<open>A field of fixed width: the \<open>k\<close> low decimal digits of \<open>n\<close>, with leading zeros.\<close>

primrec lowDigits :: "nat \<Rightarrow> nat \<Rightarrow> string" where
  "lowDigits 0 n = []"
| "lowDigits (Suc k) n = lowDigits k (n div 10) @ [digitChar (n mod 10)]"

section \<open>Decimal rendering\<close>

lemma digitChar_0: "digitChar 0 = CHR ''0''"
  by (simp add: digitChar_def)

lemma lowDigits_0: "lowDigits k 0 = replicate k CHR ''0''"
  by (induction k) (simp_all add: digitChar_0 replicate_append_same)

lemma length_lowDigits: "length (lowDigits k n) = k"
  by (induction k arbitrary: n) simp_all

lemma decimal_small: "n < 10 \<Longrightarrow> decimal n = [digitChar n]"
  by (subst decimal.simps) simp

lemma decimal_large: "\<not> n < 10 \<Longrightarrow> decimal n = decimal (n div 10) @ [digitChar (n mod 10)]"
  by (subst decimal.simps) simp

lemma padStart_decimal: "0 < k \<Longrightarrow> n < 10 ^ k \<Longrightarrow> padStart k (decimal n) = lowDigits k n"
proof (induction k arbitrary: n)
  case 0
  then show ?case by simp
next
  case (Suc k)
  show ?case
  proof (cases "n < 10")
    case True
    then show ?thesis
      by (simp add: padStart_def decimal_small lowDigits_0)
  next
    case False
    then have k: "0 < k" using Suc.prems by (cases k) simp_all
    have "n < 10 * 10 ^ k" using Suc.prems by simp
    then have "n div 10 < 10 ^ k" by (simp add: less_mult_imp_div_less mult.commute)
    then have "padStart k (decimal (n div 10)) = lowDigits k (n div 10)" using Suc.IH k by simp
    then show ?thesis using False
      by (simp add: padStart_def decimal_large)
  qed
qed

lemma decimal_split: "10 ^ k \<le> n \<Longrightarrow> decimal n = decimal (n div 10 ^ k) @ lowDigits k n"
proof (induction k arbitrary: n)
  case 0
  then show ?case by simp
next
  case (Suc k)
  have a: "10 * 10 ^ k \<le> n" using Suc.prems by simp
  have "(1::nat) \<le> 10 ^ k" by simp
  then have "(10::nat) \<le> 10 * 10 ^ k" by linarith
  then have n1: "\<not> n < 10" using a by linarith
  have "10 ^ k * 10 div 10 \<le> n div 10" using a by (intro div_le_mono) (simp add: mult.commute)
  then have n2: "10 ^ k \<le> n div 10" by simp
  have "decimal (n div 10) = decimal (n div 10 div 10 ^ k) @ lowDigits k (n div 10)"
    using Suc.IH n2 by simp
  then show ?case using n1
    by (simp add: decimal_large div_mult2_eq)
qed

lemma length_decimal_le: "0 < k \<Longrightarrow> n < 10 ^ k \<Longrightarrow> length (decimal n) \<le> k"
proof (induction k arbitrary: n)
  case 0
  then show ?case by simp
next
  case (Suc k)
  show ?case
  proof (cases "n < 10")
    case True
    then show ?thesis by (simp add: decimal_small)
  next
    case False
    then have k: "0 < k" using Suc.prems by (cases k) simp_all
    have "n < 10 * 10 ^ k" using Suc.prems by simp
    then have "n div 10 < 10 ^ k" by (simp add: less_mult_imp_div_less mult.commute)
    then have "length (decimal (n div 10)) \<le> k" using Suc.IH k by simp
    then show ?thesis using False by (simp add: decimal_large)
  qed
qed

lemma fixedDigits_eq:
  assumes "0 < f"
  shows "fixedDigits f n = decimal (n div 10 ^ f) @ ''.'' @ lowDigits f n"
proof (cases "n < 10 ^ f")
  case True
  have len: "length (decimal n) \<le> f" using length_decimal_le [OF assms True] .
  have pad: "replicate (f - length (decimal n)) CHR ''0'' @ decimal n = lowDigits f n"
    using padStart_decimal [OF assms True] by (simp add: padStart_def)
  have "replicate (f + 1 - length (decimal n)) CHR ''0'' @ decimal n = CHR ''0'' # lowDigits f n"
    using len pad by (simp add: Suc_diff_le)
  moreover have "decimal (n div 10 ^ f) = ''0''" using True by (simp add: decimal_small digitChar_0)
  ultimately show ?thesis using assms len
    by (simp add: fixedDigits_def Let_def length_lowDigits)
next
  case False
  then have s: "decimal n = decimal (n div 10 ^ f) @ lowDigits f n"
    using decimal_split [of f n] by simp
  have "0 < length (decimal (n div 10 ^ f))" by (subst decimal.simps) simp
  then have "\<not> length (decimal n) \<le> f" by (simp add: s length_lowDigits)
  then show ?thesis using assms
    by (simp add: fixedDigits_def Let_def) (simp add: s length_lowDigits)
qed

section \<open>Arithmetic of the duration fields\<close>

lemma trunc_of_int: "trunc (of_int k) = k"
  by (simp add: trunc_def)

lemma trunc_nonneg: "0 \<le> x \<Longrightarrow> trunc x = \<lfloor>x\<rfloor>"
  by (simp add: trunc_def)

lemma jsRem_of_int:
  fixes d c m :: int
  assumes "0 \<le> d" "0 < c" "0 < m"
  shows "jsRem (of_int d / of_int c) (of_int m) = Some (of_int (d mod (c * m)) / of_int c)"
proof -
  have q: "(of_int d / of_int c) / (of_int m :: real) = of_int d / of_int (c * m)"
    by simp
  have "0 \<le> (of_int d :: real) / of_int (c * m)" using assms by simp
  then have "trunc (of_int d / of_int (c * m)) = d div (c * m)"
    by (simp only: trunc_nonneg floor_divide_of_int_eq)
  then have t: "trunc ((of_int d / of_int c) / of_int m) = d div (c * m)"
    by (simp only: q)
  have "d mod (c * m) = d - c * m * (d div (c * m))"
    by (simp add: minus_mult_div_eq_mod)
  then have "(of_int (d mod (c * m)) :: real) = of_int d - of_int c * of_int m * of_int (d div (c * m))"
    by simp
  then have "(of_int (d mod (c * m)) :: real) / of_int c =
      of_int d / of_int c - of_int m * of_int (d div (c * m))"
    using assms by (simp add: field_simps)
  moreover have "trunc (of_int d / (of_int c * of_int m)) = d div (c * m)"
    using t by simp
  ultimately show ?thesis using assms by (simp add: jsRem_def NaN_def)
qed

lemma div_of_mod: "0 < c \<Longrightarrow> 0 < m \<Longrightarrow> (d mod (c * m)) div c = (d div c) mod m" for d c m :: int
  by (simp add: zmod_zmult2_eq)

lemma floor_half: "\<lfloor>(of_int k :: real) + 1 / 2\<rfloor> = k"
  by linarith

lemma toFixed_int: "0 \<le> k \<Longrightarrow> toFixed (Some (of_int k)) 0 = Inr (decimal (nat k))"
  using floor_half [of k] by (simp add: toFixed_def fixedDigits_def)

lemma toFixed_milli:
  assumes "0 \<le> r"
  shows "toFixed (Some (of_int r / 1000)) 3 =
    Inr (decimal (nat r div 1000) @ ''.'' @ lowDigits 3 (nat r))"
proof -
  have "\<lfloor>(of_int r :: real) / 1000 * 10 ^ 3 + 1 / 2\<rfloor> = r"
    using floor_half [of r] by simp
  then show ?thesis using assms
    by (simp add: toFixed_def fixedDigits_eq)
qed

lemma trunc_div: "0 \<le> r \<Longrightarrow> 0 < c \<Longrightarrow> trunc (of_int r / of_int c) = r div c" for r c :: int
  by (simp only: trunc_nonneg floor_divide_of_int_eq divide_nonneg_nonneg of_int_0_le_iff less_imp_le)

lemma hourField:
  assumes "0 \<le> d"
  shows "parseTimeCode (Some (of_int d)) ''HH'' =
    \<lparr>code = ''HH'', unitType = Some hour, codeLength = 2, floatPoint = None,
     timeValue = Some (of_int (d div 3600000 mod 24))\<rparr>"
proof -
  have r: "jsRem (of_int d / 3600000) 24 = Some (of_int (d mod 86400000) / 3600000)"
    using jsRem_of_int [of d 3600000 24] assms by simp
  have "trunc (of_int (d mod 86400000) / of_int 3600000) = (d mod (3600000 * 24)) div 3600000"
    by (subst trunc_div) simp_all
  then have t: "trunc (of_int (d mod 86400000) / 3600000) = d div 3600000 mod 24"
    using div_of_mod [of 3600000 24 d] by simp
  show ?thesis
    by (simp add: parseTimeCode_def wordChar_def timeCodeDict_def truthy_def r t)
qed

lemma minuteField:
  assumes "0 \<le> d"
  shows "parseTimeCode (Some (of_int d)) ''mm'' =
    \<lparr>code = ''mm'', unitType = Some minute, codeLength = 2, floatPoint = None,
     timeValue = Some (of_int (d div 60000 mod 60))\<rparr>"
proof -
  have r: "jsRem (of_int d / 60000) 60 = Some (of_int (d mod 3600000) / 60000)"
    using jsRem_of_int [of d 60000 60] assms by simp
  have "trunc (of_int (d mod 3600000) / of_int 60000) = (d mod (60000 * 60)) div 60000"
    by (subst trunc_div) simp_all
  then have t: "trunc (of_int (d mod 3600000) / 60000) = d div 60000 mod 60"
    using div_of_mod [of 60000 60 d] by simp
  show ?thesis
    by (simp add: parseTimeCode_def wordChar_def timeCodeDict_def truthy_def r t)
qed

lemma secondField:
  assumes "0 \<le> d"
  shows "parseTimeCode (Some (of_int d)) ''ss.sss'' =
    \<lparr>code = ''ss.sss'', unitType = Some second, codeLength = 6, floatPoint = Some 2,
     timeValue = Some (of_int (d mod 60000) / 1000)\<rparr>"
proof -
  have r: "jsRem (of_int d / 1000) 60 = Some (of_int (d mod 60000) / 1000)"
    using jsRem_of_int [of d 1000 60] assms by simp
  have t: "trunc (1000 * of_int (d mod 60000)) = 1000 * (d mod 60000)"
    using trunc_of_int [of "1000 * (d mod 60000)"] by simp
  show ?thesis
    by (simp add: parseTimeCode_def wordChar_def timeCodeDict_def truthy_def r t)
qed

lemma lowDigits_mod: "lowDigits k (n mod 10 ^ k) = lowDigits k n"
proof (induction k arbitrary: n)
  case 0
  then show ?case by simp
next
  case (Suc k)
  have a: "n mod (10 * 10 ^ k) div 10 = n div 10 mod 10 ^ k"
    by (simp add: mod_mult2_eq)
  have b: "n mod (10 * 10 ^ k) mod 10 = n mod 10"
    by (simp add: mod_mod_cancel)
  show ?case using Suc.IH [of "n div 10"] by (simp add: a b)
qed

lemma padStart_append: "padStart (k + length t) (s @ t) = padStart k s @ t"
  by (simp add: padStart_def)

lemma digitChar_neq:
  assumes "n < 10"
  shows "digitChar n \<noteq> CHR ''m'' \<and> digitChar n \<noteq> CHR ''s''"
proof -
  have "digitChar n \<in> set ''0123456789''"
    unfolding digitChar_def using assms by (intro nth_mem) simp
  then show ?thesis by auto
qed

lemma lowDigits_2: "lowDigits 2 n = [digitChar (n div 10 mod 10), digitChar (n mod 10)]"
  by (simp add: numeral_2_eq_2)

lemma toString_hour:
  assumes "0 \<le> d"
  shows "toString (parseTimeCode (Some (of_int d)) ''HH'') =
    Inr (lowDigits 2 (nat (d div 3600000 mod 24)))"
proof -
  have "nat (d div 3600000 mod 24) < 10 ^ 2" by simp
  then have "padStart 2 (decimal (nat (d div 3600000 mod 24))) = lowDigits 2 (nat (d div 3600000 mod 24))"
    by (intro padStart_decimal) simp_all
  then show ?thesis
    by (simp add: hourField [OF assms] toString_def toFixed_int)
qed

lemma toString_minute:
  assumes "0 \<le> d"
  shows "toString (parseTimeCode (Some (of_int d)) ''mm'') =
    Inr (lowDigits 2 (nat (d div 60000 mod 60)))"
proof -
  have "nat (d div 60000 mod 60) < 10 ^ 2" by simp
  then have "padStart 2 (decimal (nat (d div 60000 mod 60))) = lowDigits 2 (nat (d div 60000 mod 60))"
    by (intro padStart_decimal) simp_all
  then show ?thesis
    by (simp add: minuteField [OF assms] toString_def toFixed_int)
qed

lemma toString_second:
  assumes "0 \<le> d"
  shows "toString (parseTimeCode (Some (of_int d)) ''ss.sss'') =
    Inr (lowDigits 2 (nat (d div 1000 mod 60)) @ ''.'' @ lowDigits 3 (nat (d mod 1000)))"
proof -
  define r where "r = d mod 60000"
  have r: "0 \<le> r" by (simp add: r_def)
  have "nat (r div 1000) = nat r div nat 1000" using r by (rule nat_div_distrib)
  then have q: "nat r div 1000 = nat (d div 1000 mod 60)"
    using div_of_mod [of 1000 60 d] by (simp add: r_def)
  have "r mod 1000 = d mod 1000" unfolding r_def by (simp add: mod_mod_cancel)
  moreover have "nat (r mod 1000) = nat r mod nat 1000" using r by (rule nat_mod_distrib) simp
  ultimately have "nat r mod 10 ^ 3 = nat (d mod 1000)" by simp
  then have m: "lowDigits 3 (nat r) = lowDigits 3 (nat (d mod 1000))"
    using lowDigits_mod [of 3 "nat r"] by simp
  have "nat (d div 1000 mod 60) < 10 ^ 2" by simp
  then have p: "padStart 2 (decimal (nat (d div 1000 mod 60))) = lowDigits 2 (nat (d div 1000 mod 60))"
    by (intro padStart_decimal) simp_all
  have "padStart (2 + length (''.'' @ lowDigits 3 (nat (d mod 1000))))
          (decimal (nat (d div 1000 mod 60)) @ ''.'' @ lowDigits 3 (nat (d mod 1000))) =
        padStart 2 (decimal (nat (d div 1000 mod 60))) @ ''.'' @ lowDigits 3 (nat (d mod 1000))"
    by (rule padStart_append)
  then have "padStart 6 (decimal (nat (d div 1000 mod 60)) @ ''.'' @ lowDigits 3 (nat (d mod 1000))) =
        lowDigits 2 (nat (d div 1000 mod 60)) @ ''.'' @ lowDigits 3 (nat (d mod 1000))"
    by (simp add: length_lowDigits p)
  then show ?thesis
    using toFixed_milli [OF r]
    by (simp add: secondField [OF assms] toString_def q m r_def [symmetric])
qed

section \<open>The formatted time span\<close>

lemma code_parseTimeCode: "code (parseTimeCode time c) = c"
  by (simp add: parseTimeCode_def Let_def)

lemma matchAll_template: "matchAll ''HH:mm:ss.sss'' = Some [''HH'', ''mm'', ''ss.sss'']"
  by (simp add: matchAll_def codeChar_def wordChar_def)

lemma replace_template:
  assumes "a \<noteq> CHR ''m''" "a \<noteq> CHR ''s''" "b \<noteq> CHR ''m''" "b \<noteq> CHR ''s''"
    and "c \<noteq> CHR ''s''" "e \<noteq> CHR ''s''"
  shows "replace ''ss.sss'' z (replace ''mm'' [c, e] (replace ''HH'' [a, b] ''HH:mm:ss.sss'')) =
    [a, b] @ '':'' @ [c, e] @ '':'' @ z"
  using assms by simp

lemma formatTime_nonneg:
  assumes "0 \<le> d"
  shows "formatTime ''HH:mm:ss.sss'' (Some (of_int d)) =
    Inr (lowDigits 2 (nat (d div 3600000 mod 24)) @ '':'' @
         lowDigits 2 (nat (d div 60000 mod 60)) @ '':'' @
         lowDigits 2 (nat (d div 1000 mod 60)) @ ''.'' @ lowDigits 3 (nat (d mod 1000)))"
proof -
  define h where "h = nat (d div 3600000 mod 24)"
  define m where "m = nat (d div 60000 mod 60)"
  define z where "z = lowDigits 2 (nat (d div 1000 mod 60)) @ ''.'' @ lowDigits 3 (nat (d mod 1000))"
  have dg: "\<And>n. digitChar (n mod 10) \<noteq> CHR ''m'' \<and> digitChar (n mod 10) \<noteq> CHR ''s''"
    by (rule digitChar_neq) simp
  have "formatTime ''HH:mm:ss.sss'' (Some (of_int d)) =
      Inr (replace ''ss.sss'' z (replace ''mm'' (lowDigits 2 m) (replace ''HH'' (lowDigits 2 h) ''HH:mm:ss.sss'')))"
    unfolding formatTime_def matchAll_template
    by (simp add: toString_hour [OF assms] toString_minute [OF assms] toString_second [OF assms]
        code_parseTimeCode h_def m_def z_def del: replace.simps)
  also have "\<dots> = Inr (lowDigits 2 h @ '':'' @ lowDigits 2 m @ '':'' @ z)"
    unfolding lowDigits_2 by (subst replace_template) (simp_all add: dg)
  finally show ?thesis by (simp add: h_def m_def z_def)
qed

lemma jsSub_getTime:
  "jsSub (getTime \<lparr>DateValue = Some e\<rparr>) (getTime \<lparr>DateValue = Some s\<rparr>) = Some (of_int (e - s))"
  by (simp add: jsSub_def getTime_def)

lemma timeSpanToString_nonneg:
  assumes "s \<le> e"
  shows "timeSpanToString \<lparr>DateValue = Some s\<rparr> \<lparr>DateValue = Some e\<rparr> =
    Inr (lowDigits 2 (nat ((e - s) div 3600000 mod 24)) @ '':'' @
         lowDigits 2 (nat ((e - s) div 60000 mod 60)) @ '':'' @
         lowDigits 2 (nat ((e - s) div 1000 mod 60)) @ ''.'' @ lowDigits 3 (nat ((e - s) mod 1000)))"
  unfolding timeSpanToString_def jsSub_getTime using assms by (intro formatTime_nonneg) simp

lemma toFixed_total: "f \<le> 100 \<Longrightarrow> \<exists>s. toFixed v f = Inr s"
  by (cases v) (simp_all add: toFixed_def)

lemma indexOf_less: "indexOf c x = Some i \<Longrightarrow> i < length c"
  by (induction c arbitrary: i) (auto split: if_splits)

lemma toString_total:
  assumes "length c \<le> 101"
  shows "\<exists>s. toString (parseTimeCode time c) = Inr s"
proof -
  define f where "f = (case indexOf c CHR ''.'' of None \<Rightarrow> 0
    | Some i \<Rightarrow> if i \<noteq> 0 then length c - i - 1 else 0)"
  have "f \<le> 100" using assms by (auto simp add: f_def split: option.splits)
  then obtain s where s: "toFixed (timeValue (parseTimeCode time c)) f = Inr s"
    using toFixed_total by blast
  have fp: "floatPoint (parseTimeCode time c) = indexOf c CHR ''.''"
    and len: "codeLength (parseTimeCode time c) = length c"
    by (simp_all add: parseTimeCode_def Let_def)
  have "toString (parseTimeCode time c) =
      (case toFixed (timeValue (parseTimeCode time c)) f of
         Inl e \<Rightarrow> Inl e | Inr s \<Rightarrow> Inr (padStart (length c) s))"
    unfolding toString_def fp len f_def ..
  then show ?thesis by (simp add: s)
qed

lemma formatTime_total: "\<exists>s. formatTime ''HH:mm:ss.sss'' time = Inr s"
proof -
  obtain s1 where s1: "toString (parseTimeCode time ''HH'') = Inr s1"
    using toString_total [of "''HH''" time] by auto
  obtain s2 where s2: "toString (parseTimeCode time ''mm'') = Inr s2"
    using toString_total [of "''mm''" time] by auto
  obtain s3 where s3: "toString (parseTimeCode time ''ss.sss'') = Inr s3"
    using toString_total [of "''ss.sss''" time] by auto
  show ?thesis
    unfolding formatTime_def matchAll_template by (simp add: s1 s2 s3 del: replace.simps)
qed

lemma unitType_template:
  "map (\<lambda>c. unitType (parseTimeCode time c)) [''HH'', ''mm'', ''ss.sss''] =
     [Some hour, Some minute, Some second]"
  by (simp add: parseTimeCode_def Let_def wordChar_def timeCodeDict_def)

lemma lowDigits_3:
  "lowDigits 3 n = [digitChar (n div 10 div 10 mod 10), digitChar (n div 10 mod 10), digitChar (n mod 10)]"
  by (simp add: numeral_3_eq_3)


section \<open>Claims about timeSpanToString\<close>

text \<open>
  C8. \<^verbatim>\<open>timeSpanToString\<close> renders the duration between its two timestamps in the
  template \<^verbatim>\<open>HH:mm:ss.sss\<close>: whatever the start \<open>t\<close>, an end 19,210,453 ms later gives
  \<^verbatim>\<open>05:20:10.453\<close>, one hour later \<^verbatim>\<open>01:00:00.000\<close>, thirty minutes later
  \<^verbatim>\<open>00:30:00.000\<close>, twenty seconds later \<^verbatim>\<open>00:00:20.000\<close> and 250 ms later
  \<^verbatim>\<open>00:00:00.250\<close>.
\<close>

theorem timeSpanToString_examples:
  "timeSpanToString \<lparr>DateValue = Some t\<rparr> \<lparr>DateValue = Some (t + 19210453)\<rparr> = Inr ''05:20:10.453'' \<and>
   timeSpanToString \<lparr>DateValue = Some t\<rparr> \<lparr>DateValue = Some (t + 3600000)\<rparr> = Inr ''01:00:00.000'' \<and>
   timeSpanToString \<lparr>DateValue = Some t\<rparr> \<lparr>DateValue = Some (t + 1800000)\<rparr> = Inr ''00:30:00.000'' \<and>
   timeSpanToString \<lparr>DateValue = Some t\<rparr> \<lparr>DateValue = Some (t + 20000)\<rparr> = Inr ''00:00:20.000'' \<and>
   timeSpanToString \<lparr>DateValue = Some t\<rparr> \<lparr>DateValue = Some (t + 250)\<rparr> = Inr ''00:00:00.250''"
  by (simp add: timeSpanToString_nonneg lowDigits_2 lowDigits_3 digitChar_def)

text \<open>The docstring's last example, from 1 February 2000, 10:00:00 UTC.\<close>

theorem timeSpanToString_examples_witness:
  "timeSpanToString \<lparr>DateValue = Some 949399200000\<rparr> \<lparr>DateValue = Some 949418410453\<rparr> =
     Inr ''05:20:10.453''"
  using timeSpanToString_examples [of 949399200000] by simp

text \<open>
  C10. \<^verbatim>\<open>timeSpanToString\<close> raises no error, for valid and for invalid dates alike:
  the scan of the fixed template gives the three codes \<^verbatim>\<open>HH\<close>, \<^verbatim>\<open>mm\<close> and
  \<^verbatim>\<open>ss.sss\<close>, and the unit of each of them is a recognised one.
\<close>

theorem timeSpanToString_total:
  "(\<exists>str. timeSpanToString startDate endDate = Inr str) \<and>
   matchAll ''HH:mm:ss.sss'' = Some [''HH'', ''mm'', ''ss.sss''] \<and>
   map (\<lambda>c. unitType (parseTimeCode time c)) [''HH'', ''mm'', ''ss.sss''] =
     [Some hour, Some minute, Some second]"
  unfolding timeSpanToString_def
  using formatTime_total matchAll_template unitType_template by simp

theorem timeSpanToString_total_witness:
  "\<exists>str. timeSpanToString \<lparr>DateValue = None\<rparr> \<lparr>DateValue = Some 0\<rparr> = Inr str"
  using timeSpanToString_total [of "\<lparr>DateValue = None\<rparr>" "\<lparr>DateValue = Some 0\<rparr>" None] by simp






section \<open>The clock angle\<close>


lemma TimeClip_of_int:
  "TimeClip (Some (of_int x)) = (if 8640000000000000 < \<bar>x\<bar> then None else Some x)"
proof -
  have "(8640000000000000 < \<bar>of_int x :: real\<bar>) = (8640000000000000 < \<bar>x\<bar>)"
    by linarith
  then show ?thesis by (simp add: TimeClip_def trunc_of_int NaN_def)
qed











lemma TimeClip_numeral:
  "TimeClip (Some (numeral k)) =
     (if (8640000000000000::int) < numeral k then None else Some (numeral k))"
  using TimeClip_of_int [of "numeral k"] by simp



section \<open>Claims about angleBetweenClockHands\<close>










section \<open>Years and days\<close>

lemma div_succ: "0 < k \<Longrightarrow> (a + 1) div k = a div k + (if (a + 1) mod k = 0 then 1 else 0)" for a k :: int
proof -
  assume k: "0 < k"
  have a: "a + 1 = k * (a div k) + (a mod k + 1)" by simp
  have r: "0 \<le> a mod k" "a mod k < k" using k by simp_all
  show ?thesis
  proof (cases "a mod k + 1 = k")
    case True
    then have e: "a + 1 = k * (a div k + 1) + 0" using a by (simp add: algebra_simps)
    have "(a + 1) div k = a div k + 1" by (rule int_div_pos_eq [OF e]) (use k in simp_all)
    moreover have "(a + 1) mod k = 0" by (rule int_mod_pos_eq [OF e]) (use k in simp_all)
    ultimately show ?thesis by simp
  next
    case False
    then have lt: "a mod k + 1 < k" using r by linarith
    have "(a + 1) div k = a div k" by (rule int_div_pos_eq [OF a]) (use lt r in simp_all)
    moreover have "(a + 1) mod k = a mod k + 1" by (rule int_mod_pos_eq [OF a]) (use lt r in simp_all)
    ultimately show ?thesis using r by simp
  qed
qed

lemma mod_shift: "(y - c * k) mod k = y mod k" for y c k :: int
  using mod_mult_self1 [of y "- c" k] by simp
lemma mod_400_100: "y mod 400 = 0 \<Longrightarrow> y mod 100 = 0" for y :: int
  using mod_mod_cancel [of 100 400 y] by simp
lemma mod_100_4: "y mod 100 = 0 \<Longrightarrow> y mod 4 = 0" for y :: int
  using mod_mod_cancel [of 4 100 y] by simp

lemma div_4_succ: "(y + 1 - 1969) div 4 = (y - 1969) div 4 + (if y mod 4 = 0 then 1 else 0)" for y :: int
proof -
  have "y + 1 - 1969 = (y - 1969) + 1" by simp
  moreover have "(y - 1969 + 1) mod 4 = y mod 4" using mod_shift [of y 492 4] by (simp add: algebra_simps)
  ultimately show ?thesis using div_succ [of 4 "y - 1969"] by simp
qed
lemma div_100_succ: "(y + 1 - 1901) div 100 = (y - 1901) div 100 + (if y mod 100 = 0 then 1 else 0)" for y :: int
proof -
  have "y + 1 - 1901 = (y - 1901) + 1" by simp
  moreover have "(y - 1901 + 1) mod 100 = y mod 100" using mod_shift [of y 19 100] by (simp add: algebra_simps)
  ultimately show ?thesis using div_succ [of 100 "y - 1901"] by simp
qed
lemma div_400_succ: "(y + 1 - 1601) div 400 = (y - 1601) div 400 + (if y mod 400 = 0 then 1 else 0)" for y :: int
proof -
  have "y + 1 - 1601 = (y - 1601) + 1" by simp
  moreover have "(y - 1601 + 1) mod 400 = y mod 400" using mod_shift [of y 4 400] by (simp add: algebra_simps)
  ultimately show ?thesis using div_succ [of 400 "y - 1601"] by simp
qed
lemma DayFromYear_Suc: "DayFromYear (y + 1) = DayFromYear y + DaysInYear y"
proof -
  show ?thesis
    unfolding DayFromYear_def DaysInYear_def using mod_400_100 [of y] mod_100_4 [of y] by (simp only: div_4_succ div_100_succ div_400_succ) auto
qed

lemma div_lower: "0 < k \<Longrightarrow> k * (x div k) \<le> x" for x k :: int
  using mult_div_mod_eq [of k x] pos_mod_sign [of k x] by linarith
lemma div_upper: "0 < k \<Longrightarrow> x \<le> k * (x div k) + k - 1" for x k :: int
  using mult_div_mod_eq [of k x] pos_mod_bound [of k x] by linarith
lemma DayFromYear_bounds:
  "146097 * (y - 1970) - 506 \<le> 400 * DayFromYear y"
  "400 * DayFromYear y \<le> 146097 * (y - 1970) + 589"
proof -
  define A where "A = (y - 1969) div 4"
  define B where "B = (y - 1901) div 100"
  define C where "C = (y - 1601) div 400"
  have a: "4 * A \<le> y - 1969" "y - 1969 \<le> 4 * A + 3"
    using div_lower [of 4 "y - 1969"] div_upper [of 4 "y - 1969"] by (simp_all add: A_def)
  have b: "100 * B \<le> y - 1901" "y - 1901 \<le> 100 * B + 99"
    using div_lower [of 100 "y - 1901"] div_upper [of 100 "y - 1901"] by (simp_all add: B_def)
  have c: "400 * C \<le> y - 1601" "y - 1601 \<le> 400 * C + 399"
    using div_lower [of 400 "y - 1601"] div_upper [of 400 "y - 1601"] by (simp_all add: C_def)
  have d: "DayFromYear y = 365 * (y - 1970) + A - B + C"
    by (simp add: DayFromYear_def A_def B_def C_def)
  have a': "100 * y - 197200 \<le> 400 * A" using a(2) by linarith
  have b': "400 * B \<le> 4 * y - 7604" using b(1) by linarith
  have c': "y - 2000 \<le> 400 * C" using c(2) by linarith
  show "146097 * (y - 1970) - 506 \<le> 400 * DayFromYear y"
    unfolding d using a' b' c' by (simp add: algebra_simps)
  have a'': "400 * A \<le> 100 * y - 196900" using a(1) by linarith
  have b'': "4 * y - 8000 \<le> 400 * B" using b(2) by linarith
  have c'': "400 * C \<le> y - 1601" using c(1) by linarith
  show "400 * DayFromYear y \<le> 146097 * (y - 1970) + 589"
    unfolding d using a'' b'' c'' by (simp add: algebra_simps)
qed
lemma YearFromTime_bounds:
  "DayFromYear (YearFromTime t) \<le> Day t" "Day t < DayFromYear (YearFromTime t + 1)"
proof -
  define y where "y = 1970 + (Day t * 400) div 146097"
  define D where "D = Day t"
  have e: "146097 * (y - 1970) \<le> 400 * D" "400 * D \<le> 146097 * (y - 1970) + 146096"
    using div_lower [of 146097 "Day t * 400"] div_upper [of 146097 "Day t * 400"]
    by (simp_all add: y_def D_def)
  define a where "a = DayFromYear (y - 1)"
  define b where "b = DayFromYear (y + 1 + 1)"
  have a: "400 * a \<le> 146097 * (y - 1970) - 145508"
    using DayFromYear_bounds(2) [of "y - 1"] by (simp add: a_def algebra_simps)
  have b: "146097 * (y - 1970) + 291688 \<le> 400 * b"
    using DayFromYear_bounds(1) [of "y + 1 + 1"] by (simp add: b_def algebra_simps)
  have lo: "a \<le> D"
    using a e by linarith
  have hi: "D < b"
    using b e by linarith
  have yr: "YearFromTime t =
      (if DayFromYear (y + 1) \<le> D then y + 1 else if DayFromYear y \<le> D then y else y - 1)"
    by (simp add: YearFromTime_def y_def Let_def D_def)
  show "DayFromYear (YearFromTime t) \<le> Day t" using lo by (simp add: yr a_def D_def)
  show "Day t < DayFromYear (YearFromTime t + 1)" using hi by (auto simp add: yr b_def D_def)
qed

section \<open>The calendar and the date setters\<close>

lemma DayFromYear_strict_mono:
  assumes "a < b"
  shows "DayFromYear a < DayFromYear b"
proof -
  have "400 * DayFromYear a \<le> 146097 * (a - 1970) + 589"
    by (rule DayFromYear_bounds)
  moreover have "146097 * (b - 1970) - 506 \<le> 400 * DayFromYear b"
    by (rule DayFromYear_bounds)
  moreover have "146097 * (a - 1970) + 146097 \<le> 146097 * (b - 1970)"
    using assms by simp
  ultimately show ?thesis by linarith
qed

lemma DayFromYear_mono: "a \<le> b \<Longrightarrow> DayFromYear a \<le> DayFromYear b"
  using DayFromYear_strict_mono [of a b] by (cases "a = b") simp_all

lemma YearFromTime_unique:
  assumes "DayFromYear y \<le> Day t" "Day t < DayFromYear (y + 1)"
  shows "YearFromTime t = y"
proof (rule ccontr)
  assume ne: "YearFromTime t \<noteq> y"
  show False
  proof (cases "YearFromTime t < y")
    case True
    then have "DayFromYear (YearFromTime t + 1) \<le> DayFromYear y" by (intro DayFromYear_mono) simp
    then show False using YearFromTime_bounds(2) [of t] assms(1) by linarith
  next
    case False
    then have "DayFromYear (y + 1) \<le> DayFromYear (YearFromTime t)"
      using ne by (intro DayFromYear_mono) simp
    then show False using YearFromTime_bounds(1) [of t] assms(2) by linarith
  qed
qed

text \<open>The definition of the language standard: the year of \<open>t\<close> is the one that holds its day.\<close>

lemma YearFromTime_iff:
  "YearFromTime t = y \<longleftrightarrow> DayFromYear y \<le> Day t \<and> Day t < DayFromYear (y + 1)"
  using YearFromTime_bounds [of t] YearFromTime_unique [of y t] by auto

lemma Day_MakeDate:
  assumes "0 \<le> tod" "tod < msPerDay"
  shows "Day (MakeDate D tod) = D" "TimeWithinDay (MakeDate D tod) = tod"
proof -
  have e: "MakeDate D tod = msPerDay * D + tod" by (simp add: MakeDate_def)
  show "Day (MakeDate D tod) = D"
    unfolding Day_def by (rule int_div_pos_eq [OF e]) (use assms in simp_all)
  show "TimeWithinDay (MakeDate D tod) = tod"
    unfolding TimeWithinDay_def by (rule int_mod_pos_eq [OF e]) (use assms in simp_all)
qed

lemma TimeWithinDay_range: "0 \<le> TimeWithinDay t \<and> TimeWithinDay t < msPerDay"
  by (simp add: TimeWithinDay_def msPerDay_def)

lemma fields_of_day:
  assumes "0 \<le> k" "k < DaysInYear y" "0 \<le> tod" "tod < msPerDay"
  shows "YearFromTime (MakeDate (DayFromYear y + k) tod) = y"
    and "DayWithinYear (MakeDate (DayFromYear y + k) tod) = k"
    and "InLeapYear (MakeDate (DayFromYear y + k) tod) = (if DaysInYear y = 366 then 1 else 0)"
proof -
  have d: "Day (MakeDate (DayFromYear y + k) tod) = DayFromYear y + k"
    using assms by (intro Day_MakeDate)
  show y: "YearFromTime (MakeDate (DayFromYear y + k) tod) = y"
    by (rule YearFromTime_unique) (use assms in \<open>simp_all add: d DayFromYear_Suc\<close>)
  show "DayWithinYear (MakeDate (DayFromYear y + k) tod) = k"
    by (simp add: DayWithinYear_def d y)
  show "InLeapYear (MakeDate (DayFromYear y + k) tod) = (if DaysInYear y = 366 then 1 else 0)"
    by (simp add: InLeapYear_def y)
qed

lemma DaysInYear_cases: "DaysInYear y = 365 \<or> DaysInYear y = 366"
  by (simp add: DaysInYear_def)

lemma DayWithinYear_range: "0 \<le> DayWithinYear t \<and> DayWithinYear t < DaysInYear (YearFromTime t)"
  using YearFromTime_bounds [of t] DayFromYear_Suc [of "YearFromTime t"]
  by (simp add: DayWithinYear_def)

lemma DateFromTime_range: "1 \<le> DateFromTime t \<and> DateFromTime t \<le> 31"
proof -
  have "InLeapYear t = 0 \<or> InLeapYear t = 1" by (simp add: InLeapYear_def)
  moreover have "InLeapYear t = 0 \<Longrightarrow> DayWithinYear t < 365"
    using DayWithinYear_range [of t] DaysInYear_cases [of "YearFromTime t"]
    by (auto simp add: InLeapYear_def split: if_splits)
  moreover have "DayWithinYear t < 366"
    using DayWithinYear_range [of t] DaysInYear_cases [of "YearFromTime t"] by auto
  ultimately show ?thesis
    using DayWithinYear_range [of t]
    by (auto simp add: DateFromTime_def MonthFromTime_def monthStart_def Let_def)
qed

lemma LocalTime_UTC: "LocalTime tz (UTC tz x) = x"
  by (simp add: LocalTime_def UTC_def)

lemma TimeClip_Some: "TimeClip (Some (of_int x)) = Some u \<Longrightarrow> u = x"
  by (simp add: TimeClip_of_int split: if_splits)

lemma MakeDay_same_year:
  assumes "0 \<le> m" "m < 12"
  shows "MakeDay y m d = DayFromYear y + (monthStart m (if DaysInYear y = 366 then 1 else 0) + d - 1)"
  using assms by (simp add: MakeDay_def Let_def div_pos_pos_trivial mod_pos_pos_trivial)

lemma setMonth_February:
  assumes "DateValue date = Some t" "DateValue (setMonth tz 1 date) = Some u"
  shows "LocalTime tz u =
    MakeDate (DayFromYear (YearFromTime (LocalTime tz t)) + (30 + DateFromTime (LocalTime tz t)))
      (TimeWithinDay (LocalTime tz t))"
proof -
  define n where "n = MakeDate (MakeDay (YearFromTime (LocalTime tz t)) 1 (DateFromTime (LocalTime tz t)))
      (TimeWithinDay (LocalTime tz t))"
  have "TimeClip (Some (of_int (UTC tz n))) = Some u"
    using assms by (simp add: setMonth_def Let_def n_def)
  then have "u = UTC tz n" by (rule TimeClip_Some)
  then have "LocalTime tz u = n" by (simp add: LocalTime_UTC)
  then show ?thesis
    by (simp add: n_def MakeDay_same_year monthStart_def)
qed

lemma setDate_29:
  assumes "DateValue date = Some t" "DateValue (setDate tz 29 date) = Some u"
  shows "LocalTime tz u =
    MakeDate (MakeDay (YearFromTime (LocalTime tz t)) (MonthFromTime (LocalTime tz t)) 29)
      (TimeWithinDay (LocalTime tz t))"
proof -
  define n where "n = MakeDate (MakeDay (YearFromTime (LocalTime tz t)) (MonthFromTime (LocalTime tz t)) 29)
      (TimeWithinDay (LocalTime tz t))"
  have "TimeClip (Some (of_int (UTC tz n))) = Some u"
    using assms by (simp add: setDate_def Let_def n_def)
  then have "u = UTC tz n" by (rule TimeClip_Some)
  then show ?thesis by (simp add: LocalTime_UTC n_def)
qed

lemma setDate_invalid: "DateValue date = None \<Longrightarrow> DateValue (setDate tz d date) = None"
  by (simp add: setDate_def)

text \<open>The fields of the day number \<open>k\<close> of year \<open>y\<close>, for the days of February and March.\<close>

lemma month_of_day:
  fixes y k tod :: int
  assumes "31 \<le> k" "k < 90" "0 \<le> tod" "tod < msPerDay"
  defines "l \<equiv> (if DaysInYear y = 366 then 1 else 0)"
  defines "n \<equiv> MakeDate (DayFromYear y + k) tod"
  shows "YearFromTime n = y" and "TimeWithinDay n = tod"
    and "MonthFromTime n = (if k < 59 + l then 1 else 2)"
    and "DateFromTime n = (if k < 59 + l then k - 30 else k - 58 - l)"
proof -
  have k: "0 \<le> k" "k < DaysInYear y" using assms(1,2) DaysInYear_cases [of y] by auto
  note f = fields_of_day [OF k assms(3,4)]
  show "YearFromTime n = y" by (simp add: n_def f)
  show "TimeWithinDay n = tod" unfolding n_def using assms(3,4) by (rule Day_MakeDate)
  show m: "MonthFromTime n = (if k < 59 + l then 1 else 2)"
    using assms(1,2) by (simp add: MonthFromTime_def Let_def n_def f l_def)
  show "DateFromTime n = (if k < 59 + l then k - 30 else k - 58 - l)"
    unfolding DateFromTime_def m by (simp add: n_def f l_def monthStart_def)
qed

lemma isLeapYear_effect:
  fixes tz t u :: int
  assumes "DateValue date = Some t" and "DateValue (snd (isLeapYear tz date)) = Some u"
  defines "lt \<equiv> LocalTime tz t"
  defines "l \<equiv> (if DaysInYear (YearFromTime lt) = 366 then (1::int) else 0)"
  shows "fst (isLeapYear tz date) \<longleftrightarrow> (l = 1 \<or> 29 \<le> DateFromTime lt)"
    and "YearFromTime (LocalTime tz u) = YearFromTime lt"
    and "TimeWithinDay (LocalTime tz u) = TimeWithinDay lt"
    and "MonthFromTime (LocalTime tz u) = (if DateFromTime lt \<le> 28 + l \<and> l = 1 then 1 else 2)"
    and "DateFromTime (LocalTime tz u) = (if DateFromTime lt \<le> 28 + l \<and> l = 0 then 1 else 29)"
proof -
  define y where "y = YearFromTime lt"
  define dt where "dt = DateFromTime lt"
  define tod where "tod = TimeWithinDay lt"
  define date1 where "date1 = setMonth tz 1 date"
  define date2 where "date2 = setDate tz 29 date1"
  have r: "isLeapYear tz date = (getDate tz date2 = Some 29, date2)"
    by (simp add: isLeapYear_def Let_def date1_def date2_def)
  have v2: "DateValue date2 = Some u" using assms(2) by (simp add: r)
  have "DateValue date1 \<noteq> None"
    using v2 setDate_invalid [of date1 tz 29] by (auto simp add: date2_def)
  then obtain u1 where v1: "DateValue date1 = Some u1" by auto
  have dt: "1 \<le> dt" "dt \<le> 31" using DateFromTime_range [of lt] by (simp_all add: dt_def)
  have tod: "0 \<le> tod" "tod < msPerDay" using TimeWithinDay_range [of lt] by (simp_all add: tod_def)
  have l: "l = (if DaysInYear y = 366 then 1 else 0)" by (simp add: l_def y_def)
  have l01: "l = 0 \<or> l = 1" by (simp add: l)
  have l1: "LocalTime tz u1 = MakeDate (DayFromYear y + (30 + dt)) tod"
    using setMonth_February [OF assms(1)] v1 by (simp add: date1_def y_def dt_def tod_def lt_def)
  have k1: "31 \<le> 30 + dt" "30 + dt < 90" using dt by simp_all
  note f1 = month_of_day [OF k1 tod, of y, folded l l1]
  have mo1: "MonthFromTime (LocalTime tz u1) = (if dt \<le> 28 + l then 1 else 2)"
    using f1(3) by auto
  define k2 where "k2 = (if dt \<le> 28 + l then 59 else 87 + l)"
  have "MakeDay y (MonthFromTime (LocalTime tz u1)) 29 = DayFromYear y + k2"
    unfolding mo1 by (simp add: MakeDay_same_year monthStart_def l k2_def)
  then have l2: "LocalTime tz u = MakeDate (DayFromYear y + k2) tod"
    using setDate_29 [OF v1] v2 by (simp add: date2_def f1)
  have k2: "31 \<le> k2" "k2 < 90" using l01 by (auto simp add: k2_def)
  note f2 = month_of_day [OF k2 tod, of y, folded l l2]
  show "YearFromTime (LocalTime tz u) = YearFromTime lt" using f2(1) by (simp add: y_def)
  show "TimeWithinDay (LocalTime tz u) = TimeWithinDay lt" using f2(2) by (simp add: tod_def)
  show "MonthFromTime (LocalTime tz u) = (if DateFromTime lt \<le> 28 + l \<and> l = 1 then 1 else 2)"
    using f2(3) l01 by (auto simp add: k2_def dt_def)
  show mod_100_4: "DateFromTime (LocalTime tz u) = (if DateFromTime lt \<le> 28 + l \<and> l = 0 then 1 else 29)"
    using f2(4) l01 by (auto simp add: k2_def dt_def)
  have "fst (isLeapYear tz date) \<longleftrightarrow> DateFromTime (LocalTime tz u) = 29"
    by (simp add: r getDate_def v2)
  then show "fst (isLeapYear tz date) \<longleftrightarrow> (l = 1 \<or> 29 \<le> DateFromTime lt)"
    unfolding mod_100_4 using l01 by auto
qed

lemma leap_iff_gregorianRule: "DaysInYear y = 366 \<longleftrightarrow> gregorianRule y"
  using mod_400_100 [of y] mod_100_4 [of y] by (auto simp add: DaysInYear_def gregorianRule_def)

lemma isLeapYear_result:
  assumes "DateValue date = Some t" and "DateValue (snd (isLeapYear tz date)) = Some u"
  shows "fst (isLeapYear tz date) \<longleftrightarrow>
    gregorianRule (YearFromTime (LocalTime tz t)) \<or> 29 \<le> DateFromTime (LocalTime tz t)"
  using isLeapYear_effect(1) [OF assms] by (simp add: leap_iff_gregorianRule)

lemma DateUTC_2001_01_31: "DateUTC 2001 0 31 0 0 = \<lparr>DateValue = Some 980899200000\<rparr>"
  by code_simp

lemma year_2001_01_31: "YearFromTime (LocalTime 0 980899200000) = 2001"
  by code_simp

lemma not_leap_2001: "\<not> gregorianRule 2001"
  by (simp add: gregorianRule_def)

lemma isLeapYear_2001_01_31: "isLeapYear 0 (DateUTC 2001 0 31 0 0) = (True, DateUTC 2001 2 29 0 0)"
  by code_simp

text \<open>The five examples of the docstring, all on the first day of February.\<close>

lemma isLeapYear_docstring:
  "map (\<lambda>y. fst (isLeapYear 0 (DateUTC y 1 1 0 0))) [1900, 2000, 2001, 2012, 2015] =
     [False, True, False, True, False]"
  by code_simp

lemma DateUTC_2001_01_15: "DateUTC 2001 0 15 10 30 = \<lparr>DateValue = Some 979554600000\<rparr>"
  by code_simp



section \<open>Claims about isLeapYear\<close>

text \<open>
  C1. The claim: \<^verbatim>\<open>isLeapYear(d)\<close> is true exactly when the year of \<open>d\<close> satisfies the
  Gregorian rule, whatever the month and the day of \<open>d\<close>. The code at 31 January 2001
  (on a machine at offset 0): \<^verbatim>\<open>setMonth(1)\<close> keeps the day 31 and so lands on 3 March,
  \<^verbatim>\<open>setDate(29)\<close> gives 29 March, and the result is \<^verbatim>\<open>true\<close> for a year that is not
  a leap year. By \<open>isLeapYear_result\<close> the result is the Gregorian rule of the local year
  or a day of the month from 29 on.
\<close>

theorem isLeapYear_31_January_2001:
  "DateUTC 2001 0 31 0 0 = \<lparr>DateValue = Some 980899200000\<rparr> \<and>
   YearFromTime (LocalTime 0 980899200000) = 2001 \<and> \<not> gregorianRule 2001 \<and>
   isLeapYear 0 (DateUTC 2001 0 31 0 0) = (True, DateUTC 2001 2 29 0 0)"
  using DateUTC_2001_01_31 year_2001_01_31 not_leap_2001 isLeapYear_2001_01_31 by simp

theorem isLeapYear_31_January_2001_witness:
  "fst (isLeapYear 0 (DateUTC 2001 0 31 0 0))"
proof -
  have "isLeapYear 0 (DateUTC 2001 0 31 0 0) = (True, DateUTC 2001 2 29 0 0)"
    using isLeapYear_31_January_2001 by blast
  then show ?thesis by (simp only: fst_conv)
qed




section \<open>Claims about the parse functions\<close>

lemma isoHostParse_docstring: "isoHostParse ''2016-01-19T08:07:37Z'' = Some 1453190857000"
  by (simp add: isoHostParse_def TimeClip_numeral MakeDate_def MakeDay_def DayFromYear_def
      DaysInYear_def monthStart_def msPerDay_def msPerHour_def msPerMinute_def)

lemma isoHostParse_rejects: "isoHostParse ''not a date'' = NaN"
  by (simp add: isoHostParse_def)

text \<open>
  C3, as the code has it. C3 says that a string outside the grammar makes the two
  functions fail with an error and never return \<^verbatim>\<open>NaN\<close>. Both return the \<^verbatim>\<open>NaN\<close> of
  the host's parser.
\<close>

theorem parse_no_error_counterexample:
  "parseDataFromRfc2822 isoHostParse ''not a date'' = Inr NaN \<and>
   parseDataFromIso8601 isoHostParse ''not a date'' = Inr NaN"
  by (simp add: parseDataFromRfc2822_def parseDataFromIso8601_def isoHostParse_rejects)

text \<open>
  C3, amended. For every string and every host parser, \<^verbatim>\<open>parseDataFromRfc2822\<close> and
  \<^verbatim>\<open>parseDataFromIso8601\<close> raise nothing and return what \<^verbatim>\<open>Date.parse\<close> returns: a
  time value, or \<^verbatim>\<open>NaN\<close> for a string that the parser does not recognise.
\<close>

theorem parse_returns_host_result:
  "parseDataFromRfc2822 parse v = Inr (parse v) \<and> parseDataFromIso8601 parse v = Inr (parse v)"
  by (simp add: parseDataFromRfc2822_def parseDataFromIso8601_def)

theorem parse_returns_host_result_witness:
  "parseDataFromIso8601 isoHostParse ''2016-01-19T08:07:37Z'' = Inr (Some 1453190857000)"
  using parse_returns_host_result [of isoHostParse "''2016-01-19T08:07:37Z''"]
  by (simp add: isoHostParse_docstring)

end
